theory Spec2Isabelle
  imports Complex_Main
begin

section \<open>The OCR tool of \<open>src/app/page.tsx\<close>: data model\<close>

text \<open>
  The component \<open>OCRTool\<close> keeps its session in React state hooks and changes it in event
  handlers. Each handler is embedded as a function from the state before the event to the
  state after it, together with the list of effects it performed on its collaborators
  (notifications, console output, calls of the recognition service).

  A JavaScript \<open>number\<close> that holds a coordinate or a scale factor is a \<open>real\<close>: the
  model covers the finite values and computes with exact arithmetic. The page index is an
  \<open>int\<close>. Pixel dimensions of a canvas element are \<open>nat\<close>, as the DOM attribute is an
  unsigned integer. The constant strings of the program (MIME types, messages, language
  codes) are \<open>string\<close>; the text that the recognition engine returns and the user edits
  may hold any character and is a list of UTF-16 code units, as a string of the language
  is.
\<close>

type_synonym codeUnits = "nat list"

subsection \<open>Interfaces \<open>Selection\<close> and \<open>PDFPage\<close> (lines 16-26)\<close>

text \<open>The fields \<open>x\<close>, \<open>y\<close>, \<open>width\<close>, \<open>height\<close> of \<open>Selection\<close> carry the prefix
  \<open>sel_\<close>, so that they do not occupy the variable names of the theorems.\<close>

record Selection =
  sel_x :: real
  sel_y :: real
  sel_width :: real
  sel_height :: real

text \<open>An \<open>HTMLCanvasElement\<close>: its pixel dimensions and its bitmap, the latter kept as an
  opaque identifier.\<close>

record HTMLCanvasElement =
  cv_width :: nat
  cv_height :: nat
  cv_bitmap :: nat

record PDFPage =
  canvas :: HTMLCanvasElement
  pageNumber :: nat

text \<open>A \<open>File\<close> of the upload input: the handler reads \<open>file.type\<close>, the page shows
  \<open>file.name\<close>, the decoders read the bytes.\<close>

record File =
  file_name :: string
  file_type :: string
  file_bytes :: "nat list"

subsection \<open>Effects on the collaborators\<close>

text \<open>The arguments of \<open>tempCtx.drawImage(sourcePage.canvas, sx, sy, sw, sh, dx, dy, dw, dh)\<close>
  together with the temporary canvas the region is drawn on: this is what
  \<open>Tesseract.recognize\<close> receives.\<close>

record Crop =
  crop_source :: HTMLCanvasElement
  crop_sx :: real
  crop_sy :: real
  crop_sw :: real
  crop_sh :: real
  crop_dx :: real
  crop_dy :: real
  crop_dw :: real
  crop_dh :: real
  crop_width :: nat
  crop_height :: nat

datatype variant = Default | Destructive

datatype effect =
    Toast string string variant
  | ConsoleError string
  | Recognize Crop string

subsection \<open>The state hooks (lines 69-77)\<close>

text \<open>\<open>dragListeners\<close> is the part of the document's listener table that the component
  owns: one entry for each pair \<open>handleMouseMove\<close>/\<open>handleMouseUp\<close> registered by
  \<open>handleMouseDown\<close>, holding the drag origin \<open>(x, y)\<close> that the two closures captured.\<close>

record session =
  pdfFile :: "File option"
  pdfPages :: "PDFPage list"
  currentPage :: int
  zoom :: real
  isProcessing :: bool
  selection :: "Selection option"
  isSelecting :: bool
  extractedText :: codeUnits
  ocrLanguage :: string
  dragListeners :: "(real \<times> real) list"

definition initial :: session where
  "initial =
     \<lparr> pdfFile = None, pdfPages = [], currentPage = 0, zoom = 1, isProcessing = False,
       selection = None, isSelecting = False, extractedText = [],
       ocrLanguage = ''eng+ben'', dragListeners = [] \<rparr>"

text \<open>\<open>pdfPages[currentPage]\<close>: \<open>undefined\<close> outside the array, which the guards of
  \<open>drawCurrentPage\<close> and \<open>performOCR\<close> test.\<close>

definition page_at :: "PDFPage list \<Rightarrow> int \<Rightarrow> PDFPage option" where
  "page_at pages i =
     (if 0 \<le> i \<and> i < int (length pages) then Some (pages ! nat i) else None)"

subsection \<open>Navigation and zoom buttons (lines 385-417)\<close>

definition previousPage :: "session \<Rightarrow> session" where
  "previousPage s = s\<lparr>currentPage := max 0 (currentPage s - 1)\<rparr>"

definition previousDisabled :: "session \<Rightarrow> bool" where
  "previousDisabled s = (currentPage s = 0)"

definition nextPage :: "session \<Rightarrow> session" where
  "nextPage s = s\<lparr>currentPage := min (int (length (pdfPages s)) - 1) (currentPage s + 1)\<rparr>"

definition nextDisabled :: "session \<Rightarrow> bool" where
  "nextDisabled s = (currentPage s = int (length (pdfPages s)) - 1)"

definition zoomOut :: "session \<Rightarrow> session" where
  "zoomOut s = s\<lparr>zoom := max 0.5 (zoom s - 0.25)\<rparr>"

definition zoomIn :: "session \<Rightarrow> session" where
  "zoomIn s = s\<lparr>zoom := min 3 (zoom s + 0.25)\<rparr>"

definition resetZoom :: "session \<Rightarrow> session" where
  "resetZoom s = s\<lparr>zoom := 1\<rparr>"

text \<open>A click on a button: a disabled button does not run its handler.\<close>

datatype button = Previous | Next | ZoomOut | ZoomIn | ResetZoom

fun click :: "button \<Rightarrow> session \<Rightarrow> session" where
  "click Previous s = (if previousDisabled s then s else previousPage s)"
| "click Next s = (if nextDisabled s then s else nextPage s)"
| "click ZoomOut s = zoomOut s"
| "click ZoomIn s = zoomIn s"
| "click ResetZoom s = resetZoom s"

fun clicks :: "button list \<Rightarrow> session \<Rightarrow> session" where
  "clicks [] s = s"
| "clicks (b # bs) s = clicks bs (click b s)"

subsection \<open>Assigning a number to \<open>canvas.width\<close>\<close>

text \<open>
  \<open>width\<close> and \<open>height\<close> of a canvas element are attributes of the DOM type
  \<open>unsigned long\<close>, not fields of the program. An assignment \<open>canvas.width = v\<close> converts the
  number as the platform prescribes: the fractional part is dropped (towards zero), the
  result is taken modulo \<open>2^32\<close>, and a value above \<open>2^31 - 1\<close> is replaced by the
  attribute's default (300 for the width, 150 for the height).
\<close>

definition integerPart :: "real \<Rightarrow> int" where
  "integerPart v = (if v < 0 then \<lceil>v\<rceil> else \<lfloor>v\<rfloor>)"

definition toUnsignedLong :: "real \<Rightarrow> nat" where
  "toUnsignedLong v = nat (integerPart v mod 2 ^ 32)"

definition setDimension :: "nat \<Rightarrow> real \<Rightarrow> nat" where
  "setDimension dflt v = (let n = toUnsignedLong v in if n \<le> 2147483647 then n else dflt)"

definition setWidth :: "real \<Rightarrow> nat" where
  "setWidth v = setDimension 300 v"

definition setHeight :: "real \<Rightarrow> nat" where
  "setHeight v = setDimension 150 v"

subsection \<open>\<open>drawCurrentPage\<close> (lines 179-206)\<close>




subsection \<open>\<open>handleMouseDown\<close> with its two listeners (lines 208-252)\<close>

record DOMRect =
  rect_left :: real
  rect_top :: real
  rect_width :: real
  rect_height :: real

record MouseEvent =
  clientX :: real
  clientY :: real

text \<open>The display canvas as an event sees it: its pixel dimensions at that moment and the
  result of \<open>getBoundingClientRect()\<close> at that moment.\<close>

record View =
  view_width :: nat
  view_height :: nat
  view_rect :: DOMRect

text \<open>Lines 213-221 and again 227-232: client coordinates to canvas pixels.\<close>

definition canvasCoords :: "View \<Rightarrow> MouseEvent \<Rightarrow> real \<times> real" where
  "canvasCoords v e =
     (let rect = view_rect v;
          scaleX = real (view_width v) / rect_width rect;
          scaleY = real (view_height v) / rect_height rect
      in ((clientX e - rect_left rect) * scaleX, (clientY e - rect_top rect) * scaleY))"

definition handleMouseMove :: "real \<times> real \<Rightarrow> View \<Rightarrow> MouseEvent \<Rightarrow> session \<Rightarrow> session" where
  "handleMouseMove origin v e s =
     (let (x, y) = origin; (currentX, currentY) = canvasCoords v e
      in s\<lparr>selection :=
             Some \<lparr> sel_x = min x currentX, sel_y = min y currentY,
                    sel_width = \<bar>currentX - x\<bar>, sel_height = \<bar>currentY - y\<bar> \<rparr>\<rparr>)"

definition handleMouseUp :: "real \<times> real \<Rightarrow> session \<Rightarrow> session" where
  "handleMouseUp origin s =
     s\<lparr>dragListeners := remove1 origin (dragListeners s), isSelecting := False\<rparr>"

text \<open>The first argument is \<open>canvasRef.current\<close>: \<open>None\<close> while no canvas is mounted.\<close>

definition handleMouseDown :: "View option \<Rightarrow> MouseEvent \<Rightarrow> session \<Rightarrow> session" where
  "handleMouseDown cur e s =
     (case cur of
        None \<Rightarrow> s
      | Some v \<Rightarrow>
          if \<not> isSelecting s then s
          else let (x, y) = canvasCoords v e
               in s\<lparr>selection := Some \<lparr> sel_x = x, sel_y = y, sel_width = 0, sel_height = 0 \<rparr>,
                    dragListeners := dragListeners s @ [(x, y)]\<rparr>)"

text \<open>A \<open>mousemove\<close> or \<open>mouseup\<close> on the document runs the listeners registered for it,
  in the order of their registration.\<close>

definition documentMouseMove :: "View \<Rightarrow> MouseEvent \<Rightarrow> session \<Rightarrow> session" where
  "documentMouseMove v e s = foldl (\<lambda>t origin. handleMouseMove origin v e t) s (dragListeners s)"

definition documentMouseUp :: "session \<Rightarrow> session" where
  "documentMouseUp s = foldl (\<lambda>t origin. handleMouseUp origin t) s (dragListeners s)"

fun drag :: "(View \<times> MouseEvent) list \<Rightarrow> session \<Rightarrow> session" where
  "drag [] s = s"
| "drag ((v, e) # ms) s = drag ms (documentMouseMove v e s)"

subsection \<open>The external services\<close>

text \<open>
  The decoders and the recognition engine are libraries; the handlers only await them
  and catch their failures. They are parameters of the model, \<open>None\<close> standing for a
  rejected promise or a thrown exception.
  \<^item> \<open>loadImage file\<close>: the canvas of lines 106-119, the loaded image drawn at its own
    size (\<open>canvas.width = img.width\<close>, \<open>canvas.height = img.height\<close>).
  \<^item> \<open>getDocument file\<close>: lines 133-138, giving \<open>pdf.numPages\<close>.
  \<^item> \<open>renderPage file i\<close>: lines 142-153, the canvas on which page \<open>i\<close> was rendered at
    scale 2.
  \<^item> \<open>recognize crop lang\<close>: \<open>Tesseract.recognize\<close>, giving \<open>data.text\<close>.
\<close>

record Services =
  loadImage :: "File \<Rightarrow> HTMLCanvasElement option"
  getDocument :: "File \<Rightarrow> nat option"
  renderPage :: "File \<Rightarrow> nat \<Rightarrow> HTMLCanvasElement option"
  recognize :: "Crop \<Rightarrow> string \<Rightarrow> codeUnits option"

subsection \<open>String helpers of the language\<close>

definition startsWith :: "string \<Rightarrow> string \<Rightarrow> bool" where
  "startsWith str p = (take (length p) str = p)"

text \<open>\<open>String.prototype.trim\<close> removes, at both ends, the code units that are white
  space or line terminators of the language: tab, line feed, vertical tab, form feed,
  carriage return, space, no-break space (U+00A0), the other space separators (U+1680,
  U+2000 to U+200A, U+202F, U+205F, U+3000), the line and paragraph separators (U+2028,
  U+2029) and the byte order mark (U+FEFF).\<close>

definition isWhiteSpace :: "nat \<Rightarrow> bool" where
  "isWhiteSpace u =
     (u \<in> set [0x09, 0x0A, 0x0B, 0x0C, 0x0D, 0x20, 0xA0, 0x1680, 0x2028, 0x2029, 0x202F, 0x205F,
               0x3000, 0xFEFF]
      \<or> (0x2000 \<le> u \<and> u \<le> 0x200A))"

definition trim :: "codeUnits \<Rightarrow> codeUnits" where
  "trim str = rev (dropWhile isWhiteSpace (rev (dropWhile isWhiteSpace str)))"

text \<open>The decimal numeral of \<open>pages.length\<close> in the template string of line 162.\<close>

fun toString :: "nat \<Rightarrow> string" where
  "toString n =
     (if n < 10 then [char_of (48 + n)]
      else toString (n div 10) @ [char_of (48 + n mod 10)])"

declare toString.simps [simp del]

subsection \<open>\<open>handleFileUpload\<close> (lines 83-177)\<close>

text \<open>The loop of lines 141-156. A failure of any page abandons the local array
  \<open>pages\<close>.\<close>

function renderPages :: "Services \<Rightarrow> File \<Rightarrow> nat \<Rightarrow> nat \<Rightarrow> PDFPage list \<Rightarrow> PDFPage list option" where
  "renderPages env file numPages i pages =
     (if i \<le> numPages then
        (case renderPage env file i of
           None \<Rightarrow> None
         | Some c \<Rightarrow> renderPages env file numPages (i + 1) (pages @ [\<lparr> canvas = c, pageNumber = i \<rparr>]))
      else Some pages)"
  by pat_completeness auto
termination
  by (relation "measure (\<lambda>(env, file, numPages, i, pages). numPages + 1 - i)") auto

declare renderPages.simps [simp del]

text \<open>The body of the \<open>try\<close> up to the state setters: the new page list and the
  notification of success, or \<open>None\<close> when something was thrown.\<close>

definition processFile :: "Services \<Rightarrow> File \<Rightarrow> bool \<Rightarrow> (PDFPage list \<times> effect) option" where
  "processFile env file isImage =
     (if isImage then
        (case loadImage env file of
           None \<Rightarrow> None
         | Some c \<Rightarrow>
             Some ([\<lparr> canvas = c, pageNumber = 1 \<rparr>],
                   Toast ''Image loaded successfully'' ''Ready for text extraction'' Default))
      else
        (case getDocument env file of
           None \<Rightarrow> None
         | Some numPages \<Rightarrow>
             (case renderPages env file numPages 1 [] of
                None \<Rightarrow> None
              | Some pages \<Rightarrow>
                  Some (pages,
                        Toast ''PDF loaded successfully''
                          (toString (length pages) @ '' pages processed'') Default))))"

text \<open>The argument is \<open>event.target.files?.[0]\<close>.\<close>

definition handleFileUpload :: "Services \<Rightarrow> File option \<Rightarrow> session \<Rightarrow> session \<times> effect list" where
  "handleFileUpload env chosen s =
     (case chosen of
        None \<Rightarrow> (s, [])
      | Some file \<Rightarrow>
          let isImage = startsWith (file_type file) ''image/'';
              isPDF = (file_type file = ''application/pdf'')
          in if \<not> isImage \<and> \<not> isPDF then
               (s, [Toast ''Invalid file'' ''Please upload a PDF, JPG, or PNG file.'' Destructive])
             else
               let s1 = s\<lparr>pdfFile := Some file, isProcessing := True\<rparr>
               in (case processFile env file isImage of
                     Some (pages, done) \<Rightarrow>
                       (s1\<lparr>pdfPages := pages, currentPage := 0, isProcessing := False\<rparr>, [done])
                   | None \<Rightarrow>
                       (s1\<lparr>isProcessing := False\<rparr>,
                        [ConsoleError ''Error processing file:'',
                         Toast ''Error'' ''Failed to process file.'' Destructive])))"

subsection \<open>\<open>performOCR\<close> (lines 254-295)\<close>

text \<open>
  \<open>performOCR\<close> is a memoised callback: the state variables it reads are those of the
  render in which the callback was created. \<open>Closure\<close> holds them. \<open>useCallback\<close> keeps the
  callback of the previous render unless an entry of the dependency array of line 295
  changed (\<open>toast\<close>, the remaining entry, is not part of the session).
\<close>

record Closure =
  cl_selection :: "Selection option"
  cl_pdfPages :: "PDFPage list"
  cl_currentPage :: int
  cl_ocrLanguage :: string
  cl_zoom :: real

definition capture :: "session \<Rightarrow> Closure" where
  "capture s =
     \<lparr> cl_selection = selection s, cl_pdfPages = pdfPages s, cl_currentPage = currentPage s,
       cl_ocrLanguage = ocrLanguage s, cl_zoom = zoom s \<rparr>"

definition dependencies :: "Closure \<Rightarrow> Selection option \<times> PDFPage list \<times> int \<times> string \<times> real" where
  "dependencies c = (cl_selection c, cl_pdfPages c, cl_currentPage c, cl_ocrLanguage c, cl_zoom c)"

definition useCallback :: "Closure \<Rightarrow> session \<Rightarrow> Closure" where
  "useCallback previous s =
     (if dependencies previous = dependencies (capture s) then previous else capture s)"

text \<open>Lines 264-272: the rectangle in page pixels and the temporary canvas.\<close>

definition sourceRect :: "Selection \<Rightarrow> real \<Rightarrow> Selection" where
  "sourceRect sel z =
     \<lparr> sel_x = sel_x sel / z, sel_y = sel_y sel / z,
       sel_width = sel_width sel / z, sel_height = sel_height sel / z \<rparr>"

definition cropRegion :: "HTMLCanvasElement \<Rightarrow> Selection \<Rightarrow> real \<Rightarrow> Crop" where
  "cropRegion source sel z =
     (let sourceX = sel_x (sourceRect sel z); sourceY = sel_y (sourceRect sel z);
          sourceWidth = sel_width (sourceRect sel z); sourceHeight = sel_height (sourceRect sel z)
      in \<lparr> crop_source = source,
           crop_sx = sourceX, crop_sy = sourceY, crop_sw = sourceWidth, crop_sh = sourceHeight,
           crop_dx = 0, crop_dy = 0, crop_dw = sourceWidth, crop_dh = sourceHeight,
           crop_width = setWidth sourceWidth, crop_height = setHeight sourceHeight \<rparr>)"

text \<open>\<open>drawImage\<close> throws when the canvas it is to read has a dimension of zero pixels;
  the \<open>catch\<close> of line 285 receives this as it receives a failure of the recognition.
  A source rectangle of width or height zero, or one that leaves the canvas, does not make
  it throw.\<close>

definition drawImageThrows :: "HTMLCanvasElement \<Rightarrow> bool" where
  "drawImageThrows source = (cv_width source = 0 \<or> cv_height source = 0)"

text \<open>The function up to its \<open>await\<close>: it returned at the guard, it threw before the
  recognition was called, or it called the recognition and waits.\<close>

datatype pending = Returned | Threw | Awaiting Crop string

definition performOCR_begin :: "Closure \<Rightarrow> session \<Rightarrow> session \<times> pending" where
  "performOCR_begin c s =
     (case cl_selection c of
        None \<Rightarrow> (s, Returned)
      | Some sel \<Rightarrow>
          (case page_at (cl_pdfPages c) (cl_currentPage c) of
             None \<Rightarrow> (s, Returned)
           | Some sourcePage \<Rightarrow>
               if drawImageThrows (canvas sourcePage) then (s\<lparr>isProcessing := True\<rparr>, Threw)
               else (s\<lparr>isProcessing := True\<rparr>,
                     Awaiting (cropRegion (canvas sourcePage) sel (cl_zoom c)) (cl_ocrLanguage c))))"

text \<open>The function from the \<open>await\<close> on, with the outcome of the \<open>try\<close> block so far:
  the recognised text, or \<open>None\<close> for an exception.\<close>

definition performOCR_end :: "codeUnits option \<Rightarrow> session \<Rightarrow> session \<times> effect list" where
  "performOCR_end outcome s =
     (case outcome of
        Some text \<Rightarrow>
          (s\<lparr>extractedText := trim text, isProcessing := False\<rparr>,
           [Toast ''OCR completed'' ''Text extracted successfully'' Default])
      | None \<Rightarrow>
          (s\<lparr>isProcessing := False\<rparr>,
           [ConsoleError ''OCR Error:'',
            Toast ''OCR failed'' ''Failed to extract text from selection.'' Destructive]))"

definition performOCR :: "Services \<Rightarrow> Closure \<Rightarrow> session \<Rightarrow> session \<times> effect list" where
  "performOCR env c s =
     (case performOCR_begin c s of
        (s1, Returned) \<Rightarrow> (s1, [])
      | (s1, Threw) \<Rightarrow> performOCR_end None s1
      | (s1, Awaiting crop lang) \<Rightarrow>
          (let (s2, fx) = performOCR_end (recognize env crop lang) s1
           in (s2, Recognize crop lang # fx)))"

subsection \<open>The rendered controls and the event loop\<close>

text \<open>
  The controls as the JSX renders them. The navigation card with the page, zoom and
  language controls and the selection card exist while \<open>pdfPages.length > 0\<close>
  (line 371); the file input is disabled while \<open>isProcessing\<close> (line 355); the button
  "Extract Text" exists while a selection exists and is disabled while \<open>isProcessing\<close>
  (lines 454-468); "Clear Selection" is disabled without a selection (line 474); the text
  area exists while \<open>extractedText\<close> is not empty (line 513); the display canvas, which
  receives \<open>mousedown\<close>, exists while \<open>pdfPages.length > 0\<close> (line 493).
\<close>

definition extractVisible :: "session \<Rightarrow> bool" where
  "extractVisible s = (pdfPages s \<noteq> [] \<and> selection s \<noteq> None)"

definition extractDisabled :: "session \<Rightarrow> bool" where
  "extractDisabled s = isProcessing s"

definition clickExtract :: "Services \<Rightarrow> Closure \<Rightarrow> session \<Rightarrow> session \<times> effect list" where
  "clickExtract env c s =
     (if extractVisible s \<and> \<not> extractDisabled s then performOCR env c s else (s, []))"

datatype event =
    Upload "File option"
  | Click button
  | ToggleSelecting
  | ClearSelection
  | MouseDown "View option" MouseEvent
  | MouseMove View MouseEvent
  | MouseUp
  | Extract
  | SelectLanguage string
  | EditText codeUnits

text \<open>After a handler has run the component renders again, and \<open>useCallback\<close> decides
  which \<open>performOCR\<close> the new render holds.\<close>

definition render :: "Closure \<Rightarrow> session \<times> effect list \<Rightarrow> (session \<times> Closure) \<times> effect list" where
  "render c r = ((fst r, useCallback c (fst r)), snd r)"

fun step :: "Services \<Rightarrow> event \<Rightarrow> session \<times> Closure \<Rightarrow> (session \<times> Closure) \<times> effect list" where
  "step env (Upload chosen) (s, c) =
     render c (if isProcessing s then (s, []) else handleFileUpload env chosen s)"
| "step env (Click b) (s, c) = render c (if pdfPages s = [] then s else click b s, [])"
| "step env ToggleSelecting (s, c) =
     render c (if pdfPages s = [] then s else s\<lparr>isSelecting := \<not> isSelecting s\<rparr>, [])"
| "step env ClearSelection (s, c) =
     render c (if pdfPages s = [] \<or> selection s = None then s else s\<lparr>selection := None\<rparr>, [])"
| "step env (MouseDown cur e) (s, c) =
     render c (if pdfPages s = [] then s else handleMouseDown cur e s, [])"
| "step env (MouseMove v e) (s, c) = render c (documentMouseMove v e s, [])"
| "step env MouseUp (s, c) = render c (documentMouseUp s, [])"
| "step env Extract (s, c) = render c (clickExtract env c s)"
| "step env (SelectLanguage l) (s, c) =
     render c (if pdfPages s = [] then s else s\<lparr>ocrLanguage := l\<rparr>, [])"
| "step env (EditText t) (s, c) =
     render c (if extractedText s = [] then s else s\<lparr>extractedText := t\<rparr>, [])"

fun run :: "Services \<Rightarrow> event list \<Rightarrow> session \<times> Closure \<Rightarrow> (session \<times> Closure) \<times> effect list" where
  "run env [] a = (a, [])"
| "run env (ev # evs) a =
     (let (a1, fx1) = step env ev a; (a2, fx2) = run env evs a1 in (a2, fx1 @ fx2))"

definition start :: "session \<times> Closure" where
  "start = (initial, capture initial)"

section \<open>Predicates and sample data of the properties\<close>

text \<open>The current page index points into the page list; with no pages it is 0.\<close>

definition pageIndexValid :: "session \<Rightarrow> bool" where
  "pageIndexValid s =
     (if pdfPages s = [] then currentPage s = 0
      else 0 \<le> currentPage s \<and> currentPage s < int (length (pdfPages s)))"

definition zoomInRange :: "session \<Rightarrow> bool" where
  "zoomInRange s = (1 / 2 \<le> zoom s \<and> zoom s \<le> 3)"

text \<open>The state variables that page navigation and zoom own.\<close>

definition view3 :: "session \<Rightarrow> PDFPage list \<times> int \<times> real" where
  "view3 s = (pdfPages s, currentPage s, zoom s)"

text \<open>The rectangle spanned by two corner points, whatever their order.\<close>

definition dragRect :: "real \<times> real \<Rightarrow> real \<times> real \<Rightarrow> Selection" where
  "dragRect p q =
     \<lparr> sel_x = min (fst p) (fst q), sel_y = min (snd p) (snd q),
       sel_width = \<bar>fst q - fst p\<bar>, sel_height = \<bar>snd q - snd p\<bar> \<rparr>"

text \<open>The specification's clamping of a rectangle in page pixels to the bounds of the
  page, written from its words (section 4.3) for comparison with \<open>cropRegion\<close>.\<close>

definition spec_clampToPage :: "HTMLCanvasElement \<Rightarrow> Selection \<Rightarrow> Selection" where
  "spec_clampToPage page r =
     (let left = max 0 (min (real (cv_width page)) (sel_x r));
          top = max 0 (min (real (cv_height page)) (sel_y r));
          right = max 0 (min (real (cv_width page)) (sel_x r + sel_width r));
          bottom = max 0 (min (real (cv_height page)) (sel_y r + sel_height r))
      in \<lparr> sel_x = left, sel_y = top, sel_width = right - left, sel_height = bottom - top \<rparr>)"

text \<open>The source rectangle that a crop hands to \<open>drawImage\<close>.\<close>

definition cropRect :: "Crop \<Rightarrow> Selection" where
  "cropRect c = \<lparr> sel_x = crop_sx c, sel_y = crop_sy c, sel_width = crop_sw c, sel_height = crop_sh c \<rparr>"

subsection \<open>Sample services, files and gestures\<close>

text \<open>A recognised text: a no-break space, a space, the digits 4 and 2, a line feed.\<close>

definition demoText :: codeUnits where
  "demoText = [0xA0, 0x20, 0x34, 0x32, 0x0A]"

text \<open>Services that fail on a file without content, decode every other image to a
  raster of 1000 by 800 pixels and every other document to two such pages, and recognise
  the same text in every region.\<close>

definition demoServices :: Services where
  "demoServices =
     \<lparr> loadImage = (\<lambda>f. if file_bytes f = [] then None
                         else Some \<lparr> cv_width = 1000, cv_height = 800, cv_bitmap = 7 \<rparr>),
       getDocument = (\<lambda>f. if file_bytes f = [] then None else Some 2),
       renderPage = (\<lambda>f i. Some \<lparr> cv_width = 1000, cv_height = 800, cv_bitmap = i \<rparr>),
       recognize = (\<lambda>crop lang. Some demoText) \<rparr>"

text \<open>The same services with a recognition engine that rejects every call.\<close>

definition failingServices :: Services where
  "failingServices = demoServices\<lparr>recognize := (\<lambda>crop lang. None)\<rparr>"

definition pngFile :: File where
  "pngFile = \<lparr> file_name = ''scan.png'', file_type = ''image/png'', file_bytes = [137, 80, 78, 71] \<rparr>"

definition jpegFile :: File where
  "jpegFile = \<lparr> file_name = ''scan.jpg'', file_type = ''image/jpeg'', file_bytes = [255, 216, 255] \<rparr>"

definition pdfDocument :: File where
  "pdfDocument = \<lparr> file_name = ''paper.pdf'', file_type = ''application/pdf'', file_bytes = [37, 80, 68, 70] \<rparr>"

definition gifFile :: File where
  "gifFile = \<lparr> file_name = ''anim.gif'', file_type = ''image/gif'', file_bytes = [71, 73, 70] \<rparr>"

definition textFile :: File where
  "textFile = \<lparr> file_name = ''notes.txt'', file_type = ''text/plain'', file_bytes = [104, 105] \<rparr>"

definition emptyPdf :: File where
  "emptyPdf = \<lparr> file_name = ''empty.pdf'', file_type = ''application/pdf'', file_bytes = [] \<rparr>"

definition rasterPage :: PDFPage where
  "rasterPage = \<lparr> canvas = \<lparr> cv_width = 1000, cv_height = 800, cv_bitmap = 7 \<rparr>, pageNumber = 1 \<rparr>"

text \<open>The session after \<open>pngFile\<close> has been loaded.\<close>

definition loadedSession :: session where
  "loadedSession = initial\<lparr>pdfFile := Some pngFile, pdfPages := [rasterPage]\<rparr>"

text \<open>The same session in selecting mode, and as the gestures below leave it.\<close>

definition selectingSession :: session where
  "selectingSession = loadedSession\<lparr>isSelecting := True\<rparr>"

definition zoomedSession :: session where
  "zoomedSession = loadedSession\<lparr>zoom := 3 / 4,
     selection := Some \<lparr> sel_x = 100, sel_y = 100, sel_width = 200, sel_height = 150 \<rparr>\<rparr>"

definition overshootSession :: session where
  "overshootSession = loadedSession\<lparr>
     selection := Some \<lparr> sel_x = 900, sel_y = 700, sel_width = 200, sel_height = 200 \<rparr>\<rparr>"

definition clickedSession :: session where
  "clickedSession = loadedSession\<lparr>
     selection := Some \<lparr> sel_x = 120, sel_y = 80, sel_width = 0, sel_height = 0 \<rparr>\<rparr>"

text \<open>A selection of 5 by 5 pixels at zoom 3.\<close>

definition tinySession :: session where
  "tinySession = loadedSession\<lparr>zoom := 3,
     selection := Some \<lparr> sel_x = 100, sel_y = 100, sel_width = 5, sel_height = 5 \<rparr>\<rparr>"

text \<open>A selection drawn at zoom 2.\<close>

definition drawnAtTwo :: session where
  "drawnAtTwo = loadedSession\<lparr>zoom := 2,
     selection := Some \<lparr> sel_x = 100, sel_y = 100, sel_width = 200, sel_height = 150 \<rparr>\<rparr>"

text \<open>A document of three pages with the second page shown.\<close>

definition threePages :: session where
  "threePages = initial\<lparr>pdfFile := Some pdfDocument,
     pdfPages := [rasterPage, rasterPage\<lparr>pageNumber := 2\<rparr>, rasterPage\<lparr>pageNumber := 3\<rparr>],
     currentPage := 1\<rparr>"

text \<open>The display canvas of that page at zoom 1, shown at its own size with its corner at
  \<open>(10, 20)\<close> of the window, at zoom 0.75 and at zoom 3.\<close>

definition viewAt1 :: View where
  "viewAt1 = \<lparr> view_width = 1000, view_height = 800,
       view_rect = \<lparr> rect_left = 10, rect_top = 20, rect_width = 1000, rect_height = 800 \<rparr> \<rparr>"

definition viewAt075 :: View where
  "viewAt075 = \<lparr> view_width = 750, view_height = 600,
       view_rect = \<lparr> rect_left = 10, rect_top = 20, rect_width = 750, rect_height = 600 \<rparr> \<rparr>"

definition viewAt3 :: View where
  "viewAt3 = \<lparr> view_width = 3000, view_height = 2400,
       view_rect = \<lparr> rect_left = 10, rect_top = 20, rect_width = 3000, rect_height = 2400 \<rparr> \<rparr>"

definition pointer :: "real \<Rightarrow> real \<Rightarrow> MouseEvent" where
  "pointer cx cy = \<lparr> clientX = cx, clientY = cy \<rparr>"

text \<open>A press and release without movement at canvas pixel \<open>(120, 80)\<close>.\<close>

definition clickGesture :: "event list" where
  "clickGesture =
     [Upload (Some pngFile), ToggleSelecting, MouseDown (Some viewAt1) (pointer 130 100), MouseUp]"

text \<open>At zoom 0.75, a drag from canvas pixel \<open>(100, 100)\<close> to \<open>(300, 250)\<close>.\<close>

definition zoomedGesture :: "event list" where
  "zoomedGesture =
     [Upload (Some pngFile), Click ZoomOut, ToggleSelecting,
      MouseDown (Some viewAt075) (pointer 110 120), MouseMove viewAt075 (pointer 310 270), MouseUp]"

text \<open>At zoom 1, a drag from canvas pixel \<open>(900, 700)\<close> to \<open>(1100, 900)\<close>, which lies beyond
  the corner of the canvas.\<close>

definition overshootGesture :: "event list" where
  "overshootGesture =
     [Upload (Some pngFile), ToggleSelecting,
      MouseDown (Some viewAt1) (pointer 910 720), MouseMove viewAt1 (pointer 1110 920), MouseUp]"


section \<open>What each handler leaves alone\<close>

lemma click_zoom_range:
  "1 / 2 \<le> zoom s \<and> zoom s \<le> 3 \<Longrightarrow> 1 / 2 \<le> zoom (click b s) \<and> zoom (click b s) \<le> 3"
  by (cases b) (auto simp: previousPage_def nextPage_def zoomOut_def zoomIn_def resetZoom_def)

lemma foldl_keeps: "(\<And>t x. g (f t x) = g t) \<Longrightarrow> g (foldl f s xs) = g s"
  by (induction xs arbitrary: s) simp_all

lemma handleMouseMove_view3: "view3 (handleMouseMove origin v e s) = view3 s"
  by (simp add: handleMouseMove_def view3_def split: prod.splits)

lemma handleMouseUp_view3: "view3 (handleMouseUp origin s) = view3 s"
  by (simp add: handleMouseUp_def view3_def)

lemma handleMouseDown_view3: "view3 (handleMouseDown cur e s) = view3 s"
  by (simp add: handleMouseDown_def view3_def split: option.splits prod.splits)

lemma documentMouseMove_view3: "view3 (documentMouseMove v e s) = view3 s"
  unfolding documentMouseMove_def by (rule foldl_keeps) (rule handleMouseMove_view3)

lemma documentMouseUp_view3: "view3 (documentMouseUp s) = view3 s"
  unfolding documentMouseUp_def by (rule foldl_keeps) (rule handleMouseUp_view3)

lemma performOCR_view3: "view3 (fst (performOCR env c s)) = view3 s"
  by (simp add: performOCR_def performOCR_begin_def performOCR_end_def view3_def
      split: option.splits prod.splits pending.splits)

lemma clickExtract_view3: "view3 (fst (clickExtract env c s)) = view3 s"
  by (simp add: clickExtract_def performOCR_view3)

lemma handleFileUpload_zoom: "zoom (fst (handleFileUpload env chosen s)) = zoom s"
  by (simp add: handleFileUpload_def Let_def split: option.splits prod.splits)

lemma handleFileUpload_pageIndexValid:
  "pageIndexValid s \<Longrightarrow> pageIndexValid (fst (handleFileUpload env chosen s))"
  by (auto simp add: handleFileUpload_def Let_def pageIndexValid_def split: option.splits prod.splits)

lemma click_pageIndexValid:
  "pdfPages s \<noteq> [] \<Longrightarrow> pageIndexValid s \<Longrightarrow> pageIndexValid (click b s)"
  by (cases b) (auto simp: pageIndexValid_def previousPage_def nextPage_def zoomOut_def zoomIn_def
      resetZoom_def previousDisabled_def nextDisabled_def)

lemma click_pages: "pdfPages (click b s) = pdfPages s"
  by (cases b) (simp_all add: previousPage_def nextPage_def zoomOut_def zoomIn_def resetZoom_def)

lemma pageIndexValid_view3: "view3 t = view3 s \<Longrightarrow> pageIndexValid t = pageIndexValid s"
  by (simp add: pageIndexValid_def view3_def)

lemma zoom_view3: "view3 t = view3 s \<Longrightarrow> zoom t = zoom s"
  by (simp add: view3_def)

lemma step_pageIndexValid:
  "pageIndexValid s \<Longrightarrow> pageIndexValid (fst (fst (step env ev (s, c))))"
proof (cases ev)
  case (Upload chosen)
  assume "pageIndexValid s"
  then show ?thesis using Upload by (simp add: render_def handleFileUpload_pageIndexValid)
next
  case (Click b)
  assume "pageIndexValid s"
  then show ?thesis using Click by (simp add: render_def click_pageIndexValid)
next
  case (MouseDown cur e)
  assume "pageIndexValid s"
  then show ?thesis using MouseDown pageIndexValid_view3 [OF handleMouseDown_view3]
    by (simp add: render_def)
next
  case (MouseMove v e)
  assume "pageIndexValid s"
  then show ?thesis using MouseMove pageIndexValid_view3 [OF documentMouseMove_view3]
    by (simp add: render_def)
next
  case MouseUp
  assume "pageIndexValid s"
  then show ?thesis using MouseUp pageIndexValid_view3 [OF documentMouseUp_view3]
    by (simp add: render_def)
next
  case Extract
  assume "pageIndexValid s"
  then show ?thesis using Extract pageIndexValid_view3 [OF clickExtract_view3]
    by (simp add: render_def)
qed (simp_all add: render_def pageIndexValid_def)

lemma run_pageIndexValid:
  "pageIndexValid (fst a) \<Longrightarrow> pageIndexValid (fst (fst (run env evs a)))"
proof (induction evs arbitrary: a)
  case Nil
  then show ?case by simp
next
  case (Cons ev evs)
  obtain s c where a: "a = (s, c)" by (cases a)
  with Cons.prems have "pageIndexValid (fst (fst (step env ev a)))"
    by (simp add: step_pageIndexValid)
  then have "pageIndexValid (fst (fst (run env evs (fst (step env ev a)))))"
    by (rule Cons.IH)
  then show ?case by (simp add: split_beta)
qed

lemma step_zoomInRange: "zoomInRange s \<Longrightarrow> zoomInRange (fst (fst (step env ev (s, c))))"
proof (cases ev)
  case (Click b)
  assume "zoomInRange s"
  then show ?thesis using Click click_zoom_range [of s b]
    by (simp add: render_def zoomInRange_def)
next
  case (MouseDown cur e)
  assume "zoomInRange s"
  then show ?thesis using MouseDown zoom_view3 [OF handleMouseDown_view3]
    by (simp add: render_def zoomInRange_def)
next
  case (MouseMove v e)
  assume "zoomInRange s"
  then show ?thesis using MouseMove zoom_view3 [OF documentMouseMove_view3]
    by (simp add: render_def zoomInRange_def)
next
  case MouseUp
  assume "zoomInRange s"
  then show ?thesis using MouseUp zoom_view3 [OF documentMouseUp_view3]
    by (simp add: render_def zoomInRange_def)
next
  case Extract
  assume "zoomInRange s"
  then show ?thesis using Extract zoom_view3 [OF clickExtract_view3]
    by (simp add: render_def zoomInRange_def)
qed (simp_all add: render_def zoomInRange_def handleFileUpload_zoom)

lemma run_zoomInRange: "zoomInRange (fst a) \<Longrightarrow> zoomInRange (fst (fst (run env evs a)))"
proof (induction evs arbitrary: a)
  case Nil
  then show ?case by simp
next
  case (Cons ev evs)
  obtain s c where a: "a = (s, c)" by (cases a)
  with Cons.prems have "zoomInRange (fst (fst (step env ev a)))"
    by (simp add: step_zoomInRange)
  then have "zoomInRange (fst (fst (run env evs (fst (step env ev a)))))"
    by (rule Cons.IH)
  then show ?case by (simp add: split_beta)
qed

section \<open>Zoom stays in its range\<close>

text \<open>
  Claim C8. The zoom factor is 1 in the initial state. After any sequence of events from
  the initial state it lies in \<open>[0.5, 3]\<close>. Zooming out of a state with zoom at least 0.5
  gives \<open>max 0.5 (zoom - 0.25)\<close>, which is at least 0.5 and not above the zoom before;
  zooming in from at most 3 gives \<open>min 3 (zoom + 0.25)\<close>, which is at most 3 and not below
  the zoom before; a reset gives 1.
\<close>

theorem zoom_bounded:
  "zoom initial = 1 \<and>
   (1 / 2 \<le> zoom (fst (fst (run env evs start))) \<and> zoom (fst (fst (run env evs start))) \<le> 3) \<and>
   (1 / 2 \<le> zoom s \<longrightarrow>
      zoom (zoomOut s) = max (1 / 2) (zoom s - 1 / 4) \<and>
      1 / 2 \<le> zoom (zoomOut s) \<and> zoom (zoomOut s) \<le> zoom s) \<and>
   (zoom s \<le> 3 \<longrightarrow>
      zoom (zoomIn s) = min 3 (zoom s + 1 / 4) \<and>
      zoom (zoomIn s) \<le> 3 \<and> zoom s \<le> zoom (zoomIn s)) \<and>
   zoom (resetZoom s) = 1"
proof -
  have i: "zoom initial = 1" by (simp add: initial_def)
  then have "zoomInRange (fst start)" by (simp add: zoomInRange_def start_def)
  then have "zoomInRange (fst (fst (run env evs start)))" by (rule run_zoomInRange)
  then have r: "1 / 2 \<le> zoom (fst (fst (run env evs start))) \<and> zoom (fst (fst (run env evs start))) \<le> 3"
    by (simp add: zoomInRange_def)
  show ?thesis using i r by (auto simp: zoomOut_def zoomIn_def resetZoom_def)
qed

section \<open>Evaluating the sample gestures\<close>

lemma useCallback_capture: "useCallback previous s = capture s"
  by (cases previous) (simp add: useCallback_def dependencies_def capture_def)

lemmas demo_defs = selectingSession_def zoomedSession_def overshootSession_def clickedSession_def
  tinySession_def viewAt3_def
  failingServices_def demoServices_def pngFile_def jpegFile_def pdfDocument_def gifFile_def
  textFile_def emptyPdf_def rasterPage_def loadedSession_def viewAt1_def viewAt075_def pointer_def

lemmas handler_defs = handleFileUpload_def processFile_def startsWith_def handleMouseDown_def
  documentMouseMove_def documentMouseUp_def handleMouseMove_def handleMouseUp_def canvasCoords_def
  render_def useCallback_capture capture_def zoomOut_def zoomIn_def resetZoom_def
  previousPage_def nextPage_def previousDisabled_def nextDisabled_def

lemma upload_png:
  "handleFileUpload demoServices (Some pngFile) initial =
     (loadedSession, [Toast ''Image loaded successfully'' ''Ready for text extraction'' Default])"
  by (simp add: handleFileUpload_def processFile_def startsWith_def demo_defs initial_def)

lemma setDimension_floor:
  "0 \<le> v \<Longrightarrow> v < 2147483648 \<Longrightarrow> setDimension d v = nat \<lfloor>v\<rfloor>"
proof -
  assume a: "0 \<le> v" and b: "v < 2147483648"
  have f0: "0 \<le> \<lfloor>v\<rfloor>" using a by simp
  have f1: "\<lfloor>v\<rfloor> < 2147483648" using b by (simp add: floor_less_iff)
  have "integerPart v mod 2 ^ 32 = \<lfloor>v\<rfloor>"
    using a f0 f1 by (simp add: integerPart_def)
  moreover have "nat \<lfloor>v\<rfloor> \<le> 2147483647" using f0 f1 by linarith
  ultimately show ?thesis
    by (simp add: setDimension_def toUnsignedLong_def Let_def)
qed

lemma run_clickGesture:
  "run demoServices clickGesture start =
     ((clickedSession, capture clickedSession),
      [Toast ''Image loaded successfully'' ''Ready for text extraction'' Default])"
  by (simp add: clickGesture_def start_def handler_defs demo_defs initial_def)

lemma run_zoomedGesture:
  "run demoServices zoomedGesture start =
     ((zoomedSession, capture zoomedSession),
      [Toast ''Image loaded successfully'' ''Ready for text extraction'' Default])"
  by (simp add: zoomedGesture_def start_def handler_defs demo_defs initial_def)

lemma run_overshootGesture:
  "run demoServices overshootGesture start =
     ((overshootSession, capture overshootSession),
      [Toast ''Image loaded successfully'' ''Ready for text extraction'' Default])"
  by (simp add: overshootGesture_def start_def handler_defs demo_defs initial_def)


section \<open>The selection tracker\<close>

lemma handleMouseMove_selection:
  "selection (handleMouseMove origin v e t) = Some (dragRect origin (canvasCoords v e))"
  by (simp add: handleMouseMove_def dragRect_def split: prod.splits)

lemma handleMouseMove_listeners: "dragListeners (handleMouseMove origin v e t) = dragListeners t"
  by (simp add: handleMouseMove_def split: prod.splits)

lemma documentMouseMove_listeners: "dragListeners (documentMouseMove v e s) = dragListeners s"
  unfolding documentMouseMove_def by (rule foldl_keeps) (rule handleMouseMove_listeners)

lemma documentMouseMove_last:
  "dragListeners s = ls @ [origin] \<Longrightarrow>
   selection (documentMouseMove v e s) = Some (dragRect origin (canvasCoords v e))"
  by (simp add: documentMouseMove_def handleMouseMove_selection)

lemma drag_listeners: "dragListeners (drag ms s) = dragListeners s"
  by (induction ms s rule: drag.induct) (simp_all add: documentMouseMove_listeners)

lemma drag_snoc: "drag (ms @ [(v, e)]) s = documentMouseMove v e (drag ms s)"
  by (induction ms s rule: drag.induct) simp_all

lemma handleMouseUp_selection: "selection (handleMouseUp origin s) = selection s"
  by (simp add: handleMouseUp_def)

lemma documentMouseUp_selection: "selection (documentMouseUp s) = selection s"
  unfolding documentMouseUp_def by (rule foldl_keeps) (rule handleMouseUp_selection)

lemma handleMouseDown_started:
  "isSelecting s \<Longrightarrow> canvasCoords v e = (x, y) \<Longrightarrow>
   handleMouseDown (Some v) e s =
     s\<lparr>selection := Some \<lparr> sel_x = x, sel_y = y, sel_width = 0, sel_height = 0 \<rparr>,
       dragListeners := dragListeners s @ [(x, y)]\<rparr>"
  by (simp add: handleMouseDown_def)

text \<open>
  Claim C1. In selecting mode, a press at canvas coordinates \<open>(x0, y0)\<close> followed by any
  pointer movements that end at \<open>(x1, y1)\<close> leaves the selection
  \<open>{x = min x0 x1, y = min y0 y1, width = |x1 - x0|, height = |y1 - y0|}\<close>, in whatever
  direction the pointer went; the release keeps it. Width and height are not negative and
  \<open>(x, y)\<close> is the top left corner: it is below both end points in each coordinate and
  the opposite corner is \<open>(max x0 x1, max y0 y1)\<close>. The press alone gives the empty
  rectangle at \<open>(x0, y0)\<close>. The canvas coordinates are those of \<open>canvasCoords\<close>, for
  bounding rectangles of positive size.
\<close>

theorem drag_selection:
  assumes sel: "isSelecting s"
    and r0: "0 < rect_width (view_rect v0) \<and> 0 < rect_height (view_rect v0)"
    and r1: "0 < rect_width (view_rect v1) \<and> 0 < rect_height (view_rect v1)"
    and p0: "canvasCoords v0 e0 = (x0, y0)"
    and p1: "canvasCoords v1 e1 = (x1, y1)"
    and t: "t = drag (ms @ [(v1, e1)]) (handleMouseDown (Some v0) e0 s)"
    and r: "r = \<lparr> sel_x = min x0 x1, sel_y = min y0 y1,
                  sel_width = \<bar>x1 - x0\<bar>, sel_height = \<bar>y1 - y0\<bar> \<rparr>"
  shows "selection (handleMouseDown (Some v0) e0 s) =
           Some \<lparr> sel_x = x0, sel_y = y0, sel_width = 0, sel_height = 0 \<rparr> \<and>
         selection t = Some r \<and>
         selection (documentMouseUp t) = Some r \<and>
         0 \<le> sel_width r \<and> 0 \<le> sel_height r \<and>
         sel_x r \<le> x0 \<and> sel_x r \<le> x1 \<and> sel_y r \<le> y0 \<and> sel_y r \<le> y1 \<and>
         sel_x r + sel_width r = max x0 x1 \<and> sel_y r + sel_height r = max y0 y1"
proof -
  let ?d = "handleMouseDown (Some v0) e0 s"
  have d: "?d = s\<lparr>selection := Some \<lparr> sel_x = x0, sel_y = y0, sel_width = 0, sel_height = 0 \<rparr>,
                  dragListeners := dragListeners s @ [(x0, y0)]\<rparr>"
    using sel p0 by (rule handleMouseDown_started)
  have "dragListeners (drag ms ?d) = dragListeners s @ [(x0, y0)]"
    by (simp add: drag_listeners d)
  then have "selection (documentMouseMove v1 e1 (drag ms ?d)) = Some (dragRect (x0, y0) (canvasCoords v1 e1))"
    by (rule documentMouseMove_last)
  then have st: "selection t = Some r"
    by (simp add: t r drag_snoc p1 dragRect_def)
  have up: "selection (documentMouseUp t) = Some r"
    by (simp add: documentMouseUp_selection st)
  have geo: "0 \<le> sel_width r \<and> 0 \<le> sel_height r \<and>
         sel_x r \<le> x0 \<and> sel_x r \<le> x1 \<and> sel_y r \<le> y0 \<and> sel_y r \<le> y1 \<and>
         sel_x r + sel_width r = max x0 x1 \<and> sel_y r + sel_height r = max y0 y1"
    by (simp add: r) linarith
  show ?thesis using d st up geo by simp
qed

section \<open>Page navigation\<close>

text \<open>
  Claim C10. For a page list of \<open>n > 0\<close> pages and a current page index \<open>i\<close> in
  \<open>[0, n - 1]\<close>: Previous sets the index to \<open>max 0 (i - 1)\<close> and is disabled exactly at
  \<open>i = 0\<close>; Next sets it to \<open>min (n - 1) (i + 1)\<close> and is disabled exactly at \<open>i = n - 1\<close>;
  a click on any button keeps the page list and leaves the index in \<open>[0, n - 1]\<close>, where
  \<open>pdfPages[currentPage]\<close> is defined. After any sequence of events the index is within
  the page list of that moment, or 0 when the list is empty.
\<close>

theorem page_index_in_range:
  assumes ne: "pdfPages s \<noteq> []"
    and lo: "0 \<le> currentPage s"
    and hi: "currentPage s < int (length (pdfPages s))"
    and t: "t = fst (fst (run env evs (s, c)))"
  shows "currentPage (previousPage s) = max 0 (currentPage s - 1) \<and>
         previousDisabled s = (currentPage s = 0) \<and>
         currentPage (nextPage s) = min (int (length (pdfPages s)) - 1) (currentPage s + 1) \<and>
         nextDisabled s = (currentPage s = int (length (pdfPages s)) - 1) \<and>
         pdfPages (click b s) = pdfPages s \<and>
         0 \<le> currentPage (click b s) \<and> currentPage (click b s) < int (length (pdfPages s)) \<and>
         page_at (pdfPages (click b s)) (currentPage (click b s)) \<noteq> None \<and>
         (if pdfPages t = [] then currentPage t = 0
          else 0 \<le> currentPage t \<and> currentPage t < int (length (pdfPages t)) \<and>
               page_at (pdfPages t) (currentPage t) \<noteq> None)"
proof -
  have v: "pageIndexValid s" using ne lo hi by (simp add: pageIndexValid_def)
  have one: "pdfPages (click b s) = pdfPages s"
    by (cases b) (simp_all add: previousPage_def nextPage_def zoomOut_def zoomIn_def resetZoom_def)
  have "pageIndexValid (click b s)" using ne v by (rule click_pageIndexValid)
  then have rng: "0 \<le> currentPage (click b s) \<and> currentPage (click b s) < int (length (pdfPages s))"
    using ne one by (simp add: pageIndexValid_def)
  have "pageIndexValid (fst (fst (run env evs (s, c))))"
    using v run_pageIndexValid [of "(s, c)" env evs] by simp
  then have fin: "if pdfPages t = [] then currentPage t = 0
          else 0 \<le> currentPage t \<and> currentPage t < int (length (pdfPages t)) \<and>
               page_at (pdfPages t) (currentPage t) \<noteq> None"
    by (simp add: t pageIndexValid_def page_at_def)
  show ?thesis using one rng fin
    by (simp add: previousPage_def nextPage_def previousDisabled_def nextDisabled_def page_at_def)
qed

section \<open>The region extractor\<close>


lemma cropRect_cropRegion: "cropRect (cropRegion source sel z) = sourceRect sel z"
  by (simp add: cropRect_def cropRegion_def sourceRect_def Let_def)

lemma performOCR_begin_awaits:
  assumes "selection s = Some sel"
    and "page_at (pdfPages s) (currentPage s) = Some pg"
    and "\<not> drawImageThrows (canvas pg)"
  shows "performOCR_begin (useCallback previous s) s =
           (s\<lparr>isProcessing := True\<rparr>, Awaiting (cropRegion (canvas pg) sel (zoom s)) (ocrLanguage s))"
  using assms by (simp add: performOCR_begin_def useCallback_capture capture_def)




text \<open>
  Claim C3, as the code has it. When no selection exists, or the page list has no current
  page, \<open>performOCR\<close> returns at its guard: the session is unchanged, nothing is notified
  and the recognition service is not called; the same holds for a click on the button.
  The guard tests the presence of a selection, not its size.
\<close>

theorem extraction_skipped_without_selection:
  assumes "selection s = None \<or> page_at (pdfPages s) (currentPage s) = None"
  shows "performOCR env (useCallback previous s) s = (s, []) \<and>
         clickExtract env (useCallback previous s) s = (s, [])"
  using assms
  by (auto simp: performOCR_def performOCR_begin_def clickExtract_def useCallback_capture capture_def
      split: option.splits)

text \<open>
  Claim C4, as the code has it. For a selection of positive width and height, a positive
  zoom and a page whose canvas can be drawn, \<open>performOCR\<close> computes
  \<open>sourceX = x / zoom\<close>, \<open>sourceY = y / zoom\<close>, \<open>sourceWidth = width / zoom\<close>,
  \<open>sourceHeight = height / zoom\<close>, copies that rectangle of the page's canvas to the
  origin of the temporary canvas at the same size, and the temporary canvas has
  \<open>floor sourceWidth\<close> by \<open>floor sourceHeight\<close> pixels: the assignment to
  \<open>canvas.width\<close> drops the fraction, it does not round (for dimensions below \<open>2^31\<close>).
\<close>

theorem crop_geometry:
  assumes sel: "selection s = Some sel"
    and pg: "page_at (pdfPages s) (currentPage s) = Some pg"
    and ok: "\<not> drawImageThrows (canvas pg)"
    and nd: "0 < sel_width sel \<and> 0 < sel_height sel"
    and z: "0 < zoom s"
    and bnd: "sel_width sel / zoom s < 2147483648 \<and> sel_height sel / zoom s < 2147483648"
  shows "performOCR_begin (useCallback previous s) s =
           (s\<lparr>isProcessing := True\<rparr>,
            Awaiting \<lparr> crop_source = canvas pg,
                       crop_sx = sel_x sel / zoom s, crop_sy = sel_y sel / zoom s,
                       crop_sw = sel_width sel / zoom s, crop_sh = sel_height sel / zoom s,
                       crop_dx = 0, crop_dy = 0,
                       crop_dw = sel_width sel / zoom s, crop_dh = sel_height sel / zoom s,
                       crop_width = nat \<lfloor>sel_width sel / zoom s\<rfloor>,
                       crop_height = nat \<lfloor>sel_height sel / zoom s\<rfloor> \<rparr>
              (ocrLanguage s))"
proof -
  have w: "setWidth (sel_width sel / zoom s) = nat \<lfloor>sel_width sel / zoom s\<rfloor>"
    using nd z bnd by (simp add: setWidth_def setDimension_floor)
  have h: "setHeight (sel_height sel / zoom s) = nat \<lfloor>sel_height sel / zoom s\<rfloor>"
    using nd z bnd by (simp add: setHeight_def setDimension_floor)
  show ?thesis
    using w h by (simp add: performOCR_begin_awaits [OF sel pg ok] cropRegion_def sourceRect_def Let_def)
qed

section \<open>Extraction outside the page and after a zoom change\<close>

lemma performOCR_awaited:
  assumes "performOCR_begin c s = (s1, Awaiting crop lang)"
  shows "performOCR env c s =
           (case recognize env crop lang of
              Some recognised \<Rightarrow>
                (s1\<lparr>extractedText := trim recognised, isProcessing := False\<rparr>,
                 [Recognize crop lang, Toast ''OCR completed'' ''Text extracted successfully'' Default])
            | None \<Rightarrow>
                (s1\<lparr>isProcessing := False\<rparr>,
                 [Recognize crop lang, ConsoleError ''OCR Error:'',
                  Toast ''OCR failed'' ''Failed to extract text from selection.'' Destructive]))"
  using assms by (simp add: performOCR_def performOCR_end_def split: option.splits)

text \<open>
  Claim C5, as the code has it. When the source rectangle of the selection is not inside
  the page (clamping it to the page would change it), \<open>performOCR\<close> does not clamp: the
  rectangle handed to \<open>drawImage\<close> is the computed one, the temporary canvas is sized from
  the computed width and height, and the extraction goes on: the recognition service is
  called with that crop, and when it answers, the text is stored and success is notified.
\<close>

theorem crop_not_clamped:
  assumes sel: "selection s = Some sel"
    and pg: "page_at (pdfPages s) (currentPage s) = Some pg"
    and ok: "\<not> drawImageThrows (canvas pg)"
    and outside: "spec_clampToPage (canvas pg) (sourceRect sel (zoom s)) \<noteq> sourceRect sel (zoom s)"
    and crop: "crop = cropRegion (canvas pg) sel (zoom s)"
  shows "cropRect crop = sourceRect sel (zoom s) \<and>
         cropRect crop \<noteq> spec_clampToPage (crop_source crop) (sourceRect sel (zoom s)) \<and>
         crop_width crop = setWidth (sel_width sel / zoom s) \<and>
         crop_height crop = setHeight (sel_height sel / zoom s) \<and>
         (\<exists>t fx. performOCR env (useCallback previous s) s = (t, Recognize crop (ocrLanguage s) # fx)) \<and>
         (recognize env crop (ocrLanguage s) = Some recognised \<longrightarrow>
            performOCR env (useCallback previous s) s =
              (s\<lparr>extractedText := trim recognised, isProcessing := False\<rparr>,
               [Recognize crop (ocrLanguage s),
                Toast ''OCR completed'' ''Text extracted successfully'' Default]))"
proof -
  have b: "performOCR_begin (useCallback previous s) s =
             (s\<lparr>isProcessing := True\<rparr>, Awaiting crop (ocrLanguage s))"
    using sel pg ok by (simp add: crop performOCR_begin_awaits)
  have r: "cropRect crop = sourceRect sel (zoom s)"
    by (simp add: crop cropRect_cropRegion)
  have src: "crop_source crop = canvas pg"
    by (simp add: crop cropRegion_def Let_def)
  have dims: "crop_width crop = setWidth (sel_width sel / zoom s) \<and>
         crop_height crop = setHeight (sel_height sel / zoom s)"
    by (simp add: crop cropRegion_def sourceRect_def Let_def)
  have call: "\<exists>t fx. performOCR env (useCallback previous s) s = (t, Recognize crop (ocrLanguage s) # fx)"
    by (simp add: performOCR_awaited [OF b] split: option.splits)
  have good: "recognize env crop (ocrLanguage s) = Some recognised \<longrightarrow>
            performOCR env (useCallback previous s) s =
              (s\<lparr>extractedText := trim recognised, isProcessing := False\<rparr>,
               [Recognize crop (ocrLanguage s),
                Toast ''OCR completed'' ''Text extracted successfully'' Default])"
    by (simp add: performOCR_awaited [OF b])
  show ?thesis using r src dims call good outside by simp
qed

lemma click_zoom_only:
  "b \<in> {ZoomOut, ZoomIn, ResetZoom} \<Longrightarrow>
   selection (click b s) = selection s \<and> pdfPages (click b s) = pdfPages s \<and>
   currentPage (click b s) = currentPage s \<and> ocrLanguage (click b s) = ocrLanguage s"
  by (auto simp: zoomOut_def zoomIn_def resetZoom_def)

lemma clicks_zoom_only:
  "set bs \<subseteq> {ZoomOut, ZoomIn, ResetZoom} \<Longrightarrow>
   selection (clicks bs s) = selection s \<and> pdfPages (clicks bs s) = pdfPages s \<and>
   currentPage (clicks bs s) = currentPage s \<and> ocrLanguage (clicks bs s) = ocrLanguage s"
proof (induction bs arbitrary: s)
  case Nil
  then show ?case by simp
next
  case (Cons b bs)
  then have "b \<in> {ZoomOut, ZoomIn, ResetZoom}" and "set bs \<subseteq> {ZoomOut, ZoomIn, ResetZoom}"
    by simp_all
  then show ?case using Cons.IH [of "click b s"] click_zoom_only [of b s] by simp
qed

lemma step_closure: "snd (fst (step env ev a)) = capture (fst (fst (step env ev a)))"
  by (cases a; cases ev) (simp_all add: render_def useCallback_capture)

lemma run_snoc:
  "run env (evs @ [ev]) a =
     (let (a1, fx1) = run env evs a; (a2, fx2) = step env ev a1 in (a2, fx1 @ fx2))"
  by (induction evs arbitrary: a) (simp_all add: split_beta)

lemma run_closure:
  "snd (fst (run env (evs @ [ev]) a)) = capture (fst (fst (run env (evs @ [ev]) a)))"
  by (simp add: run_snoc split_beta step_closure)

text \<open>
  Claim C6. Let a selection exist and let the zoom buttons be clicked any number of
  times afterwards. The selection is unchanged, and \<open>performOCR\<close>, as \<open>useCallback\<close>
  holds it in the render after the clicks (whatever callback the render of the drawing
  held), divides the selection by the zoom factor of the state at extraction time.
  More generally the callback held after any event reads the state of that moment.
\<close>

theorem extraction_uses_current_zoom:
  assumes sel: "selection s = Some sel"
    and pg: "page_at (pdfPages s) (currentPage s) = Some pg"
    and ok: "\<not> drawImageThrows (canvas pg)"
    and zb: "set bs \<subseteq> {ZoomOut, ZoomIn, ResetZoom}"
    and t: "t = clicks bs s"
  shows "selection t = Some sel \<and>
         performOCR_begin (useCallback (capture s) t) t =
           (t\<lparr>isProcessing := True\<rparr>, Awaiting (cropRegion (canvas pg) sel (zoom t)) (ocrLanguage t)) \<and>
         cropRect (cropRegion (canvas pg) sel (zoom t)) =
           \<lparr> sel_x = sel_x sel / zoom t, sel_y = sel_y sel / zoom t,
             sel_width = sel_width sel / zoom t, sel_height = sel_height sel / zoom t \<rparr> \<and>
         snd (fst (run env (evs @ [ev]) a)) = capture (fst (fst (run env (evs @ [ev]) a)))"
proof -
  have k: "selection t = selection s \<and> pdfPages t = pdfPages s \<and>
           currentPage t = currentPage s \<and> ocrLanguage t = ocrLanguage s"
    unfolding t using zb by (rule clicks_zoom_only)
  then have sel': "selection t = Some sel" and pg': "page_at (pdfPages t) (currentPage t) = Some pg"
    using sel pg by simp_all
  have b: "performOCR_begin (useCallback (capture s) t) t =
           (t\<lparr>isProcessing := True\<rparr>, Awaiting (cropRegion (canvas pg) sel (zoom t)) (ocrLanguage t))"
    using sel' pg' ok by (rule performOCR_begin_awaits)
  show ?thesis using sel' b
    by (simp add: cropRect_cropRegion sourceRect_def run_closure)
qed

section \<open>The upload handler and failures\<close>

lemma upload_rejected:
  assumes "\<not> startsWith (file_type file) ''image/''" and "file_type file \<noteq> ''application/pdf''"
  shows "handleFileUpload env (Some file) s =
           (s, [Toast ''Invalid file'' ''Please upload a PDF, JPG, or PNG file.'' Destructive])"
  using assms by (simp add: handleFileUpload_def)

lemma upload_accepted:
  assumes "startsWith (file_type file) ''image/'' \<or> file_type file = ''application/pdf''"
  shows "handleFileUpload env (Some file) s =
           (case processFile env file (startsWith (file_type file) ''image/'') of
              Some (pages, notice) \<Rightarrow>
                (s\<lparr>pdfFile := Some file, pdfPages := pages, currentPage := 0, isProcessing := False\<rparr>,
                 [notice])
            | None \<Rightarrow>
                (s\<lparr>pdfFile := Some file, isProcessing := False\<rparr>,
                 [ConsoleError ''Error processing file:'',
                  Toast ''Error'' ''Failed to process file.'' Destructive]))"
  using assms by (auto simp add: handleFileUpload_def Let_def split: option.splits)

text \<open>
  Claim C7 at a GIF image. Its type \<open>image/gif\<close> is none of PDF, JPEG and PNG, yet
  \<open>handleFileUpload\<close> does not reject it: \<open>file.type.startsWith("image/")\<close> holds, the
  file is stored, decoded and becomes the page list, and success is notified.
\<close>

theorem upload_gif_accepted:
  "file_type gifFile \<notin> {''application/pdf'', ''image/jpeg'', ''image/png''} \<and>
   handleFileUpload demoServices (Some gifFile) initial =
     (initial\<lparr>pdfFile := Some gifFile, pdfPages := [rasterPage]\<rparr>,
      [Toast ''Image loaded successfully'' ''Ready for text extraction'' Default]) \<and>
   initial\<lparr>pdfFile := Some gifFile, pdfPages := [rasterPage]\<rparr> \<noteq> initial"
  by (simp add: handleFileUpload_def processFile_def startsWith_def demo_defs initial_def)

lemma upload_gate:
  assumes "file_type file \<in> {''application/pdf'', ''image/jpeg'', ''image/png''} \<or>
           \<not> startsWith (file_type file) ''image/''"
  shows "(file_type file \<in> {''application/pdf'', ''image/jpeg'', ''image/png''} \<longrightarrow>
            pdfFile (fst (handleFileUpload env (Some file) s)) = Some file) \<and>
         (file_type file \<notin> {''application/pdf'', ''image/jpeg'', ''image/png''} \<longrightarrow>
            handleFileUpload env (Some file) s =
              (s, [Toast ''Invalid file'' ''Please upload a PDF, JPG, or PNG file.'' Destructive]))"
proof -
  have a: "file_type file \<in> {''application/pdf'', ''image/jpeg'', ''image/png''} \<Longrightarrow>
           startsWith (file_type file) ''image/'' \<or> file_type file = ''application/pdf''"
    by (auto simp: startsWith_def)
  show ?thesis
  proof (intro conjI impI)
    assume "file_type file \<in> {''application/pdf'', ''image/jpeg'', ''image/png''}"
    then have "startsWith (file_type file) ''image/'' \<or> file_type file = ''application/pdf''"
      by (rule a)
    then show "pdfFile (fst (handleFileUpload env (Some file) s)) = Some file"
      by (simp add: upload_accepted split: option.splits)
  next
    assume n: "file_type file \<notin> {''application/pdf'', ''image/jpeg'', ''image/png''}"
    with assms have "\<not> startsWith (file_type file) ''image/''" by blast
    moreover from n have "file_type file \<noteq> ''application/pdf''" by simp
    ultimately show "handleFileUpload env (Some file) s =
              (s, [Toast ''Invalid file'' ''Please upload a PDF, JPG, or PNG file.'' Destructive])"
      by (rule upload_rejected)
  qed
qed

text \<open>
  Claim C9, as the code has it. For a file that passes the type check: when processing
  fails, the session differs from the one before only in \<open>pdfFile\<close>, which already holds
  the new file, and in \<open>isProcessing\<close>, which is false again; the page list, the current
  page, the selection and the extracted text are untouched. When processing succeeds, the
  page list is replaced by the new pages and the current page is 0. When the recognition
  call fails, the session is unchanged but for \<open>isProcessing\<close> being false; when it
  succeeds, \<open>extractedText\<close> is replaced by the trimmed text.
\<close>

theorem failure_keeps_pages_and_text:
  assumes acc: "startsWith (file_type file) ''image/'' \<or> file_type file = ''application/pdf''"
    and b: "performOCR_begin c t = (t1, Awaiting crop lang)"
  shows "(processFile env file (startsWith (file_type file) ''image/'') = None \<longrightarrow>
            handleFileUpload env (Some file) s =
              (s\<lparr>pdfFile := Some file, isProcessing := False\<rparr>,
               [ConsoleError ''Error processing file:'',
                Toast ''Error'' ''Failed to process file.'' Destructive])) \<and>
         (processFile env file (startsWith (file_type file) ''image/'') = Some (pages, notice) \<longrightarrow>
            handleFileUpload env (Some file) s =
              (s\<lparr>pdfFile := Some file, pdfPages := pages, currentPage := 0, isProcessing := False\<rparr>,
               [notice])) \<and>
         (recognize env crop lang = None \<longrightarrow>
            fst (performOCR env c t) = t\<lparr>isProcessing := False\<rparr>) \<and>
         (recognize env crop lang = Some recognised \<longrightarrow>
            fst (performOCR env c t) = t\<lparr>extractedText := trim recognised, isProcessing := False\<rparr>)"
proof -
  have t1: "t1 = t\<lparr>isProcessing := True\<rparr>"
    using b by (auto simp: performOCR_begin_def split: option.splits if_splits)
  show ?thesis
    by (simp add: upload_accepted [OF acc] performOCR_awaited [OF b] t1)
qed

text \<open>A document that cannot be decoded, uploaded over a loaded image: the pages stay,
  but \<open>pdfFile\<close> is the new file.\<close>

theorem failed_upload_counterexample:
  "processFile demoServices emptyPdf False = None \<and>
   fst (handleFileUpload demoServices (Some emptyPdf) loadedSession) =
     loadedSession\<lparr>pdfFile := Some emptyPdf\<rparr> \<and>
   pdfFile (loadedSession\<lparr>pdfFile := Some emptyPdf\<rparr>) \<noteq> pdfFile loadedSession \<and>
   pdfPages (loadedSession\<lparr>pdfFile := Some emptyPdf\<rparr>) = pdfPages loadedSession"
  by (simp add: handleFileUpload_def processFile_def startsWith_def demo_defs initial_def)

section \<open>The theorems at the sample gestures\<close>

lemma page_at_loaded: "page_at [rasterPage] 0 = Some rasterPage"
  by (simp add: page_at_def)

lemma rasterPage_draws: "\<not> drawImageThrows (canvas rasterPage)"
  by (simp add: drawImageThrows_def rasterPage_def)

theorem drag_selection_witness:
  "isSelecting selectingSession \<and>
   canvasCoords viewAt1 (pointer 310 520) = (300, 500) \<and>
   canvasCoords viewAt1 (pointer 110 120) = (100, 100) \<and>
   selection (documentMouseUp (drag [(viewAt1, pointer 400 90), (viewAt1, pointer 110 120)]
       (handleMouseDown (Some viewAt1) (pointer 310 520) selectingSession))) =
     Some \<lparr> sel_x = 100, sel_y = 100, sel_width = 200, sel_height = 400 \<rparr>"
proof -
  have s: "isSelecting selectingSession" by (simp add: selectingSession_def loadedSession_def)
  have r: "0 < rect_width (view_rect viewAt1) \<and> 0 < rect_height (view_rect viewAt1)"
    by (simp add: viewAt1_def)
  have p0: "canvasCoords viewAt1 (pointer 310 520) = (300, 500)"
    by (simp add: canvasCoords_def viewAt1_def pointer_def)
  have p1: "canvasCoords viewAt1 (pointer 110 120) = (100, 100)"
    by (simp add: canvasCoords_def viewAt1_def pointer_def)
  show ?thesis
    using drag_selection [OF s r r p0 p1 refl refl, of "[(viewAt1, pointer 400 90)]"] s p0 p1
    by simp
qed

section \<open>Extraction at the sample gestures\<close>

lemma run_fst: "fst (run env (evs @ [ev]) a) = fst (step env ev (fst (run env evs a)))"
  by (simp add: run_snoc split_beta)

lemma run_snd: "snd (run env (evs @ [ev]) a) = snd (run env evs a) @ snd (step env ev (fst (run env evs a)))"
  by (simp add: run_snoc split_beta)

lemma trim_demo: "trim demoText = [0x34, 0x32]"
  by (simp add: trim_def isWhiteSpace_def demoText_def)

lemma clicked_facts:
  "selection clickedSession = Some \<lparr> sel_x = 120, sel_y = 80, sel_width = 0, sel_height = 0 \<rparr>"
  "page_at (pdfPages clickedSession) (currentPage clickedSession) = Some rasterPage"
  "zoom clickedSession = 1" "ocrLanguage clickedSession = ''eng+ben''"
  "extractVisible clickedSession" "\<not> extractDisabled clickedSession"
  by (simp_all add: clickedSession_def loadedSession_def initial_def page_at_loaded
      extractVisible_def extractDisabled_def)

text \<open>A press and release without movement leaves a selection of width and height 0.
  The button "Extract Text" then runs \<open>performOCR\<close>, which calls the recognition service
  on a crop of 0 by 0 pixels.\<close>

theorem zero_size_selection_counterexample:
  "fst (fst (run demoServices clickGesture start)) = clickedSession \<and>
   selection clickedSession = Some \<lparr> sel_x = 120, sel_y = 80, sel_width = 0, sel_height = 0 \<rparr> \<and>
   snd (run demoServices (clickGesture @ [Extract]) start) =
     [Toast ''Image loaded successfully'' ''Ready for text extraction'' Default,
      Recognize (cropRegion (canvas rasterPage)
         \<lparr> sel_x = 120, sel_y = 80, sel_width = 0, sel_height = 0 \<rparr> 1) ''eng+ben'',
      Toast ''OCR completed'' ''Text extracted successfully'' Default] \<and>
   crop_width (cropRegion (canvas rasterPage)
         \<lparr> sel_x = 120, sel_y = 80, sel_width = 0, sel_height = 0 \<rparr> 1) = 0"
proof -
  have b: "performOCR_begin (capture clickedSession) clickedSession =
      (clickedSession\<lparr>isProcessing := True\<rparr>,
       Awaiting (cropRegion (canvas rasterPage)
         \<lparr> sel_x = 120, sel_y = 80, sel_width = 0, sel_height = 0 \<rparr> 1) ''eng+ben'')"
    using performOCR_begin_awaits [OF clicked_facts(1) clicked_facts(2) rasterPage_draws,
        of "capture clickedSession"]
    by (simp add: useCallback_capture clicked_facts)
  have e: "snd (step demoServices Extract (clickedSession, capture clickedSession)) =
     [Recognize (cropRegion (canvas rasterPage)
         \<lparr> sel_x = 120, sel_y = 80, sel_width = 0, sel_height = 0 \<rparr> 1) ''eng+ben'',
      Toast ''OCR completed'' ''Text extracted successfully'' Default]"
    by (simp add: render_def clickExtract_def clicked_facts performOCR_awaited [OF b])
       (simp add: demoServices_def)
  have w: "crop_width (cropRegion (canvas rasterPage)
         \<lparr> sel_x = 120, sel_y = 80, sel_width = 0, sel_height = 0 \<rparr> 1) = 0"
    by (simp add: cropRegion_def sourceRect_def Let_def setWidth_def setDimension_floor)
  show ?thesis using e w by (simp add: run_snd run_clickGesture clicked_facts)
qed

lemma zoomed_facts:
  "selection zoomedSession = Some \<lparr> sel_x = 100, sel_y = 100, sel_width = 200, sel_height = 150 \<rparr>"
  "page_at (pdfPages zoomedSession) (currentPage zoomedSession) = Some rasterPage"
  "zoom zoomedSession = 3 / 4" "ocrLanguage zoomedSession = ''eng+ben''"
  "extractVisible zoomedSession" "\<not> extractDisabled zoomedSession"
  by (simp_all add: zoomedSession_def loadedSession_def initial_def page_at_loaded
      extractVisible_def extractDisabled_def)

lemma overshoot_facts:
  "selection overshootSession = Some \<lparr> sel_x = 900, sel_y = 700, sel_width = 200, sel_height = 200 \<rparr>"
  "page_at (pdfPages overshootSession) (currentPage overshootSession) = Some rasterPage"
  "zoom overshootSession = 1" "ocrLanguage overshootSession = ''eng+ben''"
  "extractVisible overshootSession" "\<not> extractDisabled overshootSession"
  by (simp_all add: overshootSession_def loadedSession_def initial_def page_at_loaded
      extractVisible_def extractDisabled_def)

lemma extract_effects:
  assumes "selection s = Some sel"
    and "page_at (pdfPages s) (currentPage s) = Some pg"
    and "\<not> drawImageThrows (canvas pg)"
    and "extractVisible s" and "\<not> extractDisabled s"
  shows "snd (step demoServices Extract (s, capture s)) =
     [Recognize (cropRegion (canvas pg) sel (zoom s)) (ocrLanguage s),
      Toast ''OCR completed'' ''Text extracted successfully'' Default]"
proof -
  have "performOCR_begin (capture s) s =
      (s\<lparr>isProcessing := True\<rparr>, Awaiting (cropRegion (canvas pg) sel (zoom s)) (ocrLanguage s))"
    using performOCR_begin_awaits [OF assms(1-3), of "capture s"] by (simp add: useCallback_capture)
  then have "performOCR demoServices (capture s) s =
      (s\<lparr>extractedText := trim demoText, isProcessing := False\<rparr>,
       [Recognize (cropRegion (canvas pg) sel (zoom s)) (ocrLanguage s),
        Toast ''OCR completed'' ''Text extracted successfully'' Default])"
    by (simp add: performOCR_awaited demoServices_def)
  then show ?thesis using assms(4,5) by (simp add: render_def clickExtract_def)
qed

text \<open>At zoom 0.75 a selection 200 pixels wide has \<open>sourceWidth = 800 / 3\<close>. The crop is
  266 pixels wide, while \<open>800 / 3\<close> rounds to 267.\<close>

theorem crop_rounding_counterexample:
  "snd (run demoServices (zoomedGesture @ [Extract]) start) =
     [Toast ''Image loaded successfully'' ''Ready for text extraction'' Default,
      Recognize (cropRegion (canvas rasterPage)
         \<lparr> sel_x = 100, sel_y = 100, sel_width = 200, sel_height = 150 \<rparr> (3 / 4)) ''eng+ben'',
      Toast ''OCR completed'' ''Text extracted successfully'' Default] \<and>
   crop_sw (cropRegion (canvas rasterPage)
         \<lparr> sel_x = 100, sel_y = 100, sel_width = 200, sel_height = 150 \<rparr> (3 / 4)) = 800 / 3 \<and>
   crop_width (cropRegion (canvas rasterPage)
         \<lparr> sel_x = 100, sel_y = 100, sel_width = 200, sel_height = 150 \<rparr> (3 / 4)) = 266 \<and>
   round (800 / 3 :: real) = 267"
proof -
  have e: "snd (step demoServices Extract (zoomedSession, capture zoomedSession)) =
     [Recognize (cropRegion (canvas rasterPage)
         \<lparr> sel_x = 100, sel_y = 100, sel_width = 200, sel_height = 150 \<rparr> (3 / 4)) ''eng+ben'',
      Toast ''OCR completed'' ''Text extracted successfully'' Default]"
    using extract_effects [OF zoomed_facts(1) zoomed_facts(2) rasterPage_draws zoomed_facts(5,6)]
    by (simp add: zoomed_facts)
  have w: "crop_width (cropRegion (canvas rasterPage)
         \<lparr> sel_x = 100, sel_y = 100, sel_width = 200, sel_height = 150 \<rparr> (3 / 4)) = 266"
    by (simp add: cropRegion_def sourceRect_def Let_def setWidth_def setDimension_floor)
  have sw: "crop_sw (cropRegion (canvas rasterPage)
         \<lparr> sel_x = 100, sel_y = 100, sel_width = 200, sel_height = 150 \<rparr> (3 / 4)) = 800 / 3"
    by (simp add: cropRegion_def sourceRect_def Let_def)
  have r: "round (800 / 3 :: real) = 267" by (simp add: round_def)
  show ?thesis using e w sw r by (simp add: run_snd run_zoomedGesture)
qed

text \<open>A drag beyond the corner of a page of 1000 by 800 pixels: the crop keeps the
  rectangle of 200 by 200 pixels at \<open>(900, 700)\<close>, of which only 100 by 100 lie on the
  page.\<close>

theorem crop_clamping_counterexample:
  "snd (run demoServices (overshootGesture @ [Extract]) start) =
     [Toast ''Image loaded successfully'' ''Ready for text extraction'' Default,
      Recognize (cropRegion (canvas rasterPage)
         \<lparr> sel_x = 900, sel_y = 700, sel_width = 200, sel_height = 200 \<rparr> 1) ''eng+ben'',
      Toast ''OCR completed'' ''Text extracted successfully'' Default] \<and>
   cropRect (cropRegion (canvas rasterPage)
         \<lparr> sel_x = 900, sel_y = 700, sel_width = 200, sel_height = 200 \<rparr> 1) =
     \<lparr> sel_x = 900, sel_y = 700, sel_width = 200, sel_height = 200 \<rparr> \<and>
   crop_width (cropRegion (canvas rasterPage)
         \<lparr> sel_x = 900, sel_y = 700, sel_width = 200, sel_height = 200 \<rparr> 1) = 200 \<and>
   crop_height (cropRegion (canvas rasterPage)
         \<lparr> sel_x = 900, sel_y = 700, sel_width = 200, sel_height = 200 \<rparr> 1) = 200 \<and>
   spec_clampToPage (canvas rasterPage)
       (sourceRect \<lparr> sel_x = 900, sel_y = 700, sel_width = 200, sel_height = 200 \<rparr> 1) =
     \<lparr> sel_x = 900, sel_y = 700, sel_width = 100, sel_height = 100 \<rparr>"
proof -
  have e: "snd (step demoServices Extract (overshootSession, capture overshootSession)) =
     [Recognize (cropRegion (canvas rasterPage)
         \<lparr> sel_x = 900, sel_y = 700, sel_width = 200, sel_height = 200 \<rparr> 1) ''eng+ben'',
      Toast ''OCR completed'' ''Text extracted successfully'' Default]"
    using extract_effects [OF overshoot_facts(1) overshoot_facts(2) rasterPage_draws overshoot_facts(5,6)]
    by (simp add: overshoot_facts)
  have r: "cropRect (cropRegion (canvas rasterPage)
         \<lparr> sel_x = 900, sel_y = 700, sel_width = 200, sel_height = 200 \<rparr> 1) =
     \<lparr> sel_x = 900, sel_y = 700, sel_width = 200, sel_height = 200 \<rparr>"
    by (simp add: cropRect_cropRegion sourceRect_def)
  have w: "crop_width (cropRegion (canvas rasterPage)
         \<lparr> sel_x = 900, sel_y = 700, sel_width = 200, sel_height = 200 \<rparr> 1) = 200"
    by (simp add: cropRegion_def sourceRect_def Let_def setWidth_def setDimension_floor)
  have h: "crop_height (cropRegion (canvas rasterPage)
         \<lparr> sel_x = 900, sel_y = 700, sel_width = 200, sel_height = 200 \<rparr> 1) = 200"
    by (simp add: cropRegion_def sourceRect_def Let_def setHeight_def setDimension_floor)
  have c: "spec_clampToPage (canvas rasterPage)
       (sourceRect \<lparr> sel_x = 900, sel_y = 700, sel_width = 200, sel_height = 200 \<rparr> 1) =
     \<lparr> sel_x = 900, sel_y = 700, sel_width = 100, sel_height = 100 \<rparr>"
    by (simp add: spec_clampToPage_def sourceRect_def rasterPage_def)
  show ?thesis using e r w h c by (simp add: run_snd run_overshootGesture)
qed



theorem zoom_bounded_witness:
  "zoom (fst (fst (run demoServices zoomedGesture start))) = 3 / 4 \<and>
   1 / 2 \<le> zoom (initial\<lparr>zoom := 1 / 2\<rparr>) \<and>
   zoom (zoomOut (initial\<lparr>zoom := 1 / 2\<rparr>)) = 1 / 2 \<and>
   zoom (initial\<lparr>zoom := 1 / 2\<rparr>) \<le> 3 \<and>
   zoom (zoomIn (initial\<lparr>zoom := 1 / 2\<rparr>)) = 3 / 4"
  using zoom_bounded [of demoServices zoomedGesture "initial\<lparr>zoom := 1 / 2\<rparr>"]
  by (simp add: initial_def run_zoomedGesture zoomed_facts)

theorem page_index_in_range_witness:
  "pdfPages threePages \<noteq> [] \<and> currentPage threePages = 1 \<and> length (pdfPages threePages) = 3 \<and>
   currentPage (previousPage threePages) = 0 \<and>
   currentPage (nextPage threePages) = 2 \<and>
   currentPage (click Next (click Next threePages)) = 2 \<and>
   currentPage (fst (fst (run demoServices [Click Next, Click Next, Click Next] (threePages, capture threePages)))) = 2"
proof -
  have a: "pdfPages threePages \<noteq> []" and b: "0 \<le> currentPage threePages"
    and c: "currentPage threePages < int (length (pdfPages threePages))"
    by (simp_all add: threePages_def)
  show ?thesis
    using page_index_in_range [OF a b c refl, of Next demoServices "[Click Next, Click Next, Click Next]"
        "capture threePages"] a
    by (simp add: threePages_def previousPage_def nextPage_def nextDisabled_def render_def)
qed

theorem extraction_skipped_without_selection_witness:
  "selection loadedSession = None \<and>
   performOCR demoServices (capture loadedSession) loadedSession = (loadedSession, []) \<and>
   snd (run demoServices [Upload (Some pngFile), Extract] start) =
     [Toast ''Image loaded successfully'' ''Ready for text extraction'' Default]"
proof -
  have n: "selection loadedSession = None" by (simp add: loadedSession_def initial_def)
  then have h: "selection loadedSession = None \<or>
      page_at (pdfPages loadedSession) (currentPage loadedSession) = None" by simp
  have i: "\<not> isProcessing initial" by (simp add: initial_def)
  show ?thesis
    using extraction_skipped_without_selection [OF h, of demoServices "capture loadedSession"] n i
    by (simp add: useCallback_capture start_def render_def upload_png clickExtract_def
        extractVisible_def)
qed

theorem crop_geometry_witness:
  "0 < sel_width \<lparr> sel_x = 100, sel_y = 100, sel_width = 200, sel_height = 150 \<rparr> \<and>
   performOCR_begin (capture zoomedSession) zoomedSession =
     (zoomedSession\<lparr>isProcessing := True\<rparr>,
      Awaiting \<lparr> crop_source = canvas rasterPage,
                 crop_sx = 400 / 3, crop_sy = 400 / 3, crop_sw = 800 / 3, crop_sh = 200,
                 crop_dx = 0, crop_dy = 0, crop_dw = 800 / 3, crop_dh = 200,
                 crop_width = 266, crop_height = 200 \<rparr> ''eng+ben'')"
proof -
  have nd: "0 < sel_width \<lparr> sel_x = 100, sel_y = 100, sel_width = 200, sel_height = 150 \<rparr> \<and>
            0 < sel_height \<lparr> sel_x = 100, sel_y = 100, sel_width = 200, sel_height = (150::real) \<rparr>"
    by simp
  have z: "0 < zoom zoomedSession" by (simp add: zoomed_facts)
  have bnd: "sel_width \<lparr> sel_x = 100, sel_y = 100, sel_width = 200, sel_height = 150 \<rparr> / zoom zoomedSession < 2147483648 \<and>
             sel_height \<lparr> sel_x = 100, sel_y = 100, sel_width = 200, sel_height = 150 \<rparr> / zoom zoomedSession < 2147483648"
    by (simp add: zoomed_facts)
  show ?thesis
    using crop_geometry [OF zoomed_facts(1) zoomed_facts(2) rasterPage_draws nd z bnd,
        of "capture zoomedSession"]
    by (simp add: useCallback_capture zoomed_facts)
qed

theorem crop_not_clamped_witness:
  "spec_clampToPage (canvas rasterPage)
       (sourceRect \<lparr> sel_x = 900, sel_y = 700, sel_width = 200, sel_height = 200 \<rparr> 1) \<noteq>
     sourceRect \<lparr> sel_x = 900, sel_y = 700, sel_width = 200, sel_height = 200 \<rparr> 1 \<and>
   performOCR demoServices (capture overshootSession) overshootSession =
     (overshootSession\<lparr>extractedText := [0x34, 0x32]\<rparr>,
      [Recognize (cropRegion (canvas rasterPage)
          \<lparr> sel_x = 900, sel_y = 700, sel_width = 200, sel_height = 200 \<rparr> 1) ''eng+ben'',
       Toast ''OCR completed'' ''Text extracted successfully'' Default])"
proof -
  let ?sel = "\<lparr> sel_x = 900, sel_y = 700, sel_width = 200, sel_height = 200 \<rparr>"
  have out: "spec_clampToPage (canvas rasterPage) (sourceRect ?sel (zoom overshootSession)) \<noteq>
      sourceRect ?sel (zoom overshootSession)"
    by (simp add: overshoot_facts spec_clampToPage_def sourceRect_def rasterPage_def)
  have rec: "recognize demoServices (cropRegion (canvas rasterPage) ?sel (zoom overshootSession))
      (ocrLanguage overshootSession) = Some demoText"
    by (simp add: demoServices_def)
  have p: "isProcessing overshootSession = False"
    by (simp add: overshootSession_def loadedSession_def initial_def)
  show ?thesis
    using crop_not_clamped [OF overshoot_facts(1) overshoot_facts(2) rasterPage_draws out refl,
        of demoServices "capture overshootSession" demoText] out rec p
    by (simp add: useCallback_capture overshoot_facts trim_demo)
qed


theorem extraction_uses_current_zoom_witness:
  "zoom drawnAtTwo = 2 \<and>
   zoom (clicks [ZoomOut, ZoomOut, ZoomOut, ZoomOut] drawnAtTwo) = 1 \<and>
   performOCR_begin (useCallback (capture drawnAtTwo) (clicks [ZoomOut, ZoomOut, ZoomOut, ZoomOut] drawnAtTwo))
       (clicks [ZoomOut, ZoomOut, ZoomOut, ZoomOut] drawnAtTwo) =
     (drawnAtTwo\<lparr>zoom := 1, isProcessing := True\<rparr>,
      Awaiting (cropRegion (canvas rasterPage)
          \<lparr> sel_x = 100, sel_y = 100, sel_width = 200, sel_height = 150 \<rparr> 1) ''eng+ben'') \<and>
   cropRect (cropRegion (canvas rasterPage)
          \<lparr> sel_x = 100, sel_y = 100, sel_width = 200, sel_height = 150 \<rparr> 1) =
     \<lparr> sel_x = 100, sel_y = 100, sel_width = 200, sel_height = 150 \<rparr>"
proof -
  let ?sel = "\<lparr> sel_x = 100, sel_y = 100, sel_width = 200, sel_height = 150 \<rparr>"
  have sel: "selection drawnAtTwo = Some ?sel" by (simp add: drawnAtTwo_def)
  have pg: "page_at (pdfPages drawnAtTwo) (currentPage drawnAtTwo) = Some rasterPage"
    by (simp add: drawnAtTwo_def loadedSession_def initial_def page_at_loaded)
  have zb: "set [ZoomOut, ZoomOut, ZoomOut, ZoomOut] \<subseteq> {ZoomOut, ZoomIn, ResetZoom}" by simp
  have t: "clicks [ZoomOut, ZoomOut, ZoomOut, ZoomOut] drawnAtTwo = drawnAtTwo\<lparr>zoom := 1\<rparr>"
    by (simp add: zoomOut_def drawnAtTwo_def)
  have l: "ocrLanguage drawnAtTwo = ''eng+ben''"
    by (simp add: drawnAtTwo_def loadedSession_def initial_def)
  show ?thesis
    using extraction_uses_current_zoom [OF sel pg rasterPage_draws zb refl,
        of demoServices "[]" Extract start] t l
    by (simp add: drawnAtTwo_def)
qed

theorem failure_keeps_pages_and_text_witness:
  "processFile failingServices emptyPdf False = None \<and>
   handleFileUpload failingServices (Some emptyPdf) loadedSession =
     (loadedSession\<lparr>pdfFile := Some emptyPdf\<rparr>,
      [ConsoleError ''Error processing file:'',
       Toast ''Error'' ''Failed to process file.'' Destructive]) \<and>
   fst (performOCR failingServices (capture zoomedSession) zoomedSession) = zoomedSession \<and>
   handleFileUpload demoServices (Some pdfDocument) loadedSession =
     (loadedSession\<lparr>pdfFile := Some pdfDocument,
        pdfPages := [\<lparr> canvas = \<lparr> cv_width = 1000, cv_height = 800, cv_bitmap = 1 \<rparr>, pageNumber = 1 \<rparr>,
                     \<lparr> canvas = \<lparr> cv_width = 1000, cv_height = 800, cv_bitmap = 2 \<rparr>, pageNumber = 2 \<rparr>]\<rparr>,
      [Toast ''PDF loaded successfully'' ''2 pages processed'' Default]) \<and>
   fst (performOCR demoServices (capture zoomedSession) zoomedSession) =
     zoomedSession\<lparr>extractedText := [0x34, 0x32]\<rparr>"
proof -
  let ?crop = "cropRegion (canvas rasterPage)
      \<lparr> sel_x = 100, sel_y = 100, sel_width = 200, sel_height = 150 \<rparr> (3 / 4)"
  let ?pages = "[\<lparr> canvas = \<lparr> cv_width = 1000, cv_height = 800, cv_bitmap = 1 \<rparr>, pageNumber = 1 \<rparr>,
                 \<lparr> canvas = \<lparr> cv_width = 1000, cv_height = 800, cv_bitmap = 2 \<rparr>, pageNumber = 2 \<rparr>]"
  let ?done = "Toast ''PDF loaded successfully'' ''2 pages processed'' Default"
  have acc1: "startsWith (file_type emptyPdf) ''image/'' \<or> file_type emptyPdf = ''application/pdf''"
    by (simp add: emptyPdf_def)
  have acc2: "startsWith (file_type pdfDocument) ''image/'' \<or> file_type pdfDocument = ''application/pdf''"
    by (simp add: pdfDocument_def)
  have img1: "startsWith (file_type emptyPdf) ''image/'' = False"
    by (simp add: emptyPdf_def startsWith_def)
  have img2: "startsWith (file_type pdfDocument) ''image/'' = False"
    by (simp add: pdfDocument_def startsWith_def)
  have b: "performOCR_begin (capture zoomedSession) zoomedSession =
      (zoomedSession\<lparr>isProcessing := True\<rparr>, Awaiting ?crop ''eng+ben'')"
    using performOCR_begin_awaits [OF zoomed_facts(1) zoomed_facts(2) rasterPage_draws,
        of "capture zoomedSession"]
    by (simp add: useCallback_capture zoomed_facts)
  have p1: "processFile failingServices emptyPdf False = None"
    by (simp add: processFile_def failingServices_def demoServices_def emptyPdf_def)
  have "toString 2 = ''2''" by code_simp
  then have tn: "toString (Suc (Suc 0)) = ''2''" by (simp add: numeral_2_eq_2)
  have rp: "renderPages demoServices pdfDocument 2 1 [] = Some ?pages"
    by (simp add: renderPages.simps demoServices_def)
  have gd: "getDocument demoServices pdfDocument = Some 2"
    by (simp add: demoServices_def pdfDocument_def)
  have p2: "processFile demoServices pdfDocument False = Some (?pages, ?done)"
    by (simp add: processFile_def gd rp tn del: One_nat_def)
  have r1: "recognize failingServices ?crop ''eng+ben'' = None"
    by (simp add: failingServices_def)
  have r2: "recognize demoServices ?crop ''eng+ben'' = Some demoText"
    by (simp add: demoServices_def)
  have idle: "isProcessing loadedSession = False" "isProcessing zoomedSession = False"
    "currentPage loadedSession = 0"
    by (simp_all add: zoomedSession_def loadedSession_def initial_def)
  show ?thesis
    using failure_keeps_pages_and_text [OF acc1 b, where env = failingServices and pages = "?pages"
        and notice = "?done" and s = loadedSession and recognised = demoText]
      failure_keeps_pages_and_text [OF acc2 b, where env = demoServices and pages = "?pages"
        and notice = "?done" and s = loadedSession and recognised = demoText]
      p1 p2 r1 r2 img1 img2 idle
    by (simp add: trim_demo)
qed

lemma upload_gate_at_samples:
  "file_type pngFile \<in> {''application/pdf'', ''image/jpeg'', ''image/png''} \<and>
   pdfFile (fst (handleFileUpload demoServices (Some pngFile) initial)) = Some pngFile \<and>
   file_type textFile \<notin> {''application/pdf'', ''image/jpeg'', ''image/png''} \<and>
   \<not> startsWith (file_type textFile) ''image/'' \<and>
   handleFileUpload demoServices (Some textFile) loadedSession =
     (loadedSession, [Toast ''Invalid file'' ''Please upload a PDF, JPG, or PNG file.'' Destructive])"
proof -
  have a: "file_type pngFile \<in> {''application/pdf'', ''image/jpeg'', ''image/png''} \<or>
           \<not> startsWith (file_type pngFile) ''image/''" by (simp add: pngFile_def)
  have b: "file_type textFile \<in> {''application/pdf'', ''image/jpeg'', ''image/png''} \<or>
           \<not> startsWith (file_type textFile) ''image/''" by (simp add: textFile_def startsWith_def)
  have c: "file_type pngFile \<in> {''application/pdf'', ''image/jpeg'', ''image/png''}"
    by (simp add: pngFile_def)
  have d: "file_type textFile \<notin> {''application/pdf'', ''image/jpeg'', ''image/png''}"
    "\<not> startsWith (file_type textFile) ''image/''"
    by (simp_all add: textFile_def startsWith_def)
  have e: "file_type pngFile = ''image/png''" by (simp add: pngFile_def)
  show ?thesis
    using upload_gate [OF a, of demoServices initial] upload_gate [OF b, of demoServices loadedSession] c d e
    by simp
qed

end
